theory Spec2Isabelle
  imports Complex_Main "HOL-Library.AList" "HOL-Library.Sublist"
begin

section \<open>Data model of the order book (src/server.py, lines 51--91)\<close>

text \<open>
  A resting order is the Python tuple \<^verbatim>\<open>(order, size, age)\<close>: a price, a size and a
  remaining life. Prices are the two-decimal quotes of the order stream and are modelled
  as exact rationals; the only operations the engine performs on them are comparisons
  and the notional product. Sizes and ages are Python integers, hence unbounded.
  A side ledger is a Python list of such tuples. The book is the Python dictionary
  handed to \<^verbatim>\<open>order_book\<close>, keyed by the side string; it is an association list with
  the dictionary's update discipline (an existing key keeps its place, a new key is
  appended).
\<close>

datatype error = IndexError | TypeError

type_synonym resting = "rat \<times> int \<times> int"
type_synonym ledger = "resting list"
type_synonym book = "(string \<times> ledger) list"

text \<open>An incoming order is the tuple \<^verbatim>\<open>(t, stock, side, order, size)\<close>; a snapshot is
  the yielded tuple \<^verbatim>\<open>(t, bids, asks)\<close>, whose ledgers may be \<^verbatim>\<open>None\<close> when the
  dictionary has no such key.\<close>

type_synonym 't incoming = "'t \<times> string \<times> string \<times> rat \<times> int"
type_synonym 't snapshot = "'t \<times> ledger option \<times> ledger option"

section \<open>Insertion and aging: \<^verbatim>\<open>add_book\<close>\<close>

text \<open>The loop of \<^verbatim>\<open>add_book\<close>: an entry is yielded, with its age reduced by one,
  exactly when its age before the step is positive.\<close>

fun age_rest :: "ledger \<Rightarrow> ledger" where
  "age_rest [] = []"
| "age_rest ((p, s, age) # book) =
     (if age > 0 then (p, s, age - 1) # age_rest book else age_rest book)"

text \<open>\<^verbatim>\<open>add_book(book, order, size, _age)\<close>: the new entry first, then the aged rest.
  The generator is always consumed whole (by \<^verbatim>\<open>sorted\<close> or \<^verbatim>\<open>list\<close>).\<close>

definition add_book :: "ledger \<Rightarrow> rat \<Rightarrow> int \<Rightarrow> int \<Rightarrow> ledger" where
  "add_book book order sz age0 = (order, sz, age0) # age_rest book"

text \<open>The default of the parameter \<^verbatim>\<open>_age\<close>.\<close>

definition default_age :: int where
  "default_age = 10"

section \<open>Crossing resolver: \<^verbatim>\<open>clear_order\<close>\<close>

text \<open>
  \<^verbatim>\<open>book[0]\<close> raises \<^verbatim>\<open>IndexError\<close> on an empty list. A call that falls off the end
  of the function returns \<^verbatim>\<open>None\<close>, here \<open>Inr None\<close>. The comparator \<open>op\<close> and the
  running notional are parameters, as in the source.
\<close>

fun clear_order ::
  "rat \<Rightarrow> int \<Rightarrow> ledger \<Rightarrow> (rat \<Rightarrow> rat \<Rightarrow> bool) \<Rightarrow> rat \<Rightarrow> error + (rat \<times> ledger) option"
where
  "clear_order order sz [] op notional = Inl IndexError"
| "clear_order order sz ((top_order, top_size, age) # tail) op notional =
     (if op order top_order then
        (let notional' = notional + of_int (min sz top_size) * top_order;
             sdiff = top_size - sz
         in if sdiff > 0 then Inr (Some (notional', add_book tail top_order sdiff age))
            else if length tail > 0 then clear_order order (- sdiff) tail op notional'
            else Inr None)
      else Inr None)"

text \<open>The defaults \<^verbatim>\<open>op=operator.ge\<close> and \<^verbatim>\<open>_notional=0\<close>.\<close>

definition ge :: "rat \<Rightarrow> rat \<Rightarrow> bool" where
  "ge a b = (a \<ge> b)"

section \<open>Uncrossing loop: \<^verbatim>\<open>clear_book\<close>\<close>

text \<open>
  Both parameters default to \<^verbatim>\<open>None\<close>; \<^verbatim>\<open>None\<close> and the empty list are falsy, so the
  loop runs only while both ledgers are non-empty lists. A returned tuple is truthy,
  \<^verbatim>\<open>None\<close> is not: the loop continues on \<open>Some\<close> and breaks on \<open>None\<close>.
\<close>

fun clear_book ::
  "ledger option \<Rightarrow> ledger option \<Rightarrow> error + (ledger option \<times> ledger option)"
where
  "clear_book (Some ((order, sz, a) # buy)) (Some (x # sell)) =
     (case clear_order order sz (x # sell) ge 0 of
        Inl e \<Rightarrow> Inl e
      | Inr None \<Rightarrow> Inr (Some ((order, sz, a) # buy), Some (x # sell))
      | Inr (Some new_book) \<Rightarrow> clear_book (Some buy) (Some (snd new_book)))"
| "clear_book buy sell = Inr (buy, sell)"

section \<open>The engine: \<^verbatim>\<open>order_book\<close>\<close>

text \<open>\<^verbatim>\<open>book.get(side, [])\<close>.\<close>

definition get_ledger :: "book \<Rightarrow> string \<Rightarrow> ledger" where
  "get_ledger book side = (case map_of book side of None \<Rightarrow> [] | Some l \<Rightarrow> l)"

text \<open>\<^verbatim>\<open>sorted(new, reverse=..., key=lambda x: x[0])\<close>: a stable sort by price, ascending,
  or descending (still stable) when \<open>reverse\<close> is set.\<close>

definition sorted_price :: "bool \<Rightarrow> ledger \<Rightarrow> ledger" where
  "sorted_price reverse new =
     (if reverse then sort_key (\<lambda>x. - fst x) new else sort_key fst new)"

text \<open>The body of the \<^verbatim>\<open>if stock_name == stock\<close> branch: the side's ledger receives
  the new order, is aged and re-sorted, and is stored back under the side's key.\<close>

definition insert_order :: "book \<Rightarrow> string \<Rightarrow> rat \<Rightarrow> int \<Rightarrow> book" where
  "insert_order book side order sz =
     (let new = add_book (get_ledger book side) order sz default_age
      in AList.update side (sorted_price (side = ''buy'') new) book)"

text \<open>\<^verbatim>\<open>clear_book(**book)\<close>: a key other than the two parameter names is an unexpected
  keyword argument (\<^verbatim>\<open>TypeError\<close>); a missing key leaves the parameter at \<^verbatim>\<open>None\<close>.\<close>

definition valid_keys :: "book \<Rightarrow> bool" where
  "valid_keys book = list_all (\<lambda>k. k = ''buy'' \<or> k = ''sell'') (map fst book)"

definition clear_book_kw :: "book \<Rightarrow> error + (ledger option \<times> ledger option)" where
  "clear_book_kw book =
     (if valid_keys book
      then clear_book (map_of book ''buy'') (map_of book ''sell'')
      else Inl TypeError)"

text \<open>
  The generator \<^verbatim>\<open>order_book(orders, book, stock_name)\<close>, run to the end of the stream:
  the snapshots it yields in order, the exception that ended it (if any), and the
  dictionary as the run leaves it (the dictionary is mutated in place).
\<close>

fun order_book ::
  "'t incoming list \<Rightarrow> book \<Rightarrow> string \<Rightarrow> 't snapshot list \<times> error option \<times> book"
where
  "order_book [] book stock_name = ([], None, book)"
| "order_book ((t, stock, side, order, sz) # orders) book stock_name =
     (let book' = (if stock_name = stock then insert_order book side order sz else book)
      in case clear_book_kw book' of
           Inl e \<Rightarrow> ([], Some e, book')
         | Inr (bids, asks) \<Rightarrow>
             (case order_book orders book' stock_name of
                (snaps, err, final) \<Rightarrow> ((t, bids, asks) # snaps, err, final)))"

text \<open>The dictionary the application starts every instrument from.\<close>

definition empty_book :: book where
  "empty_book = [(''buy'', []), (''sell'', [])]"

section \<open>Notions used to state the properties\<close>

text \<open>A ledger parameter that is \<^verbatim>\<open>None\<close> holds no entries.\<close>

definition ledger_of :: "ledger option \<Rightarrow> ledger" where
  "ledger_of l = (case l of None \<Rightarrow> [] | Some xs \<Rightarrow> xs)"

text \<open>An order of the instrument is well-formed when its side is one of the two sides;
  the side of an order of another instrument is never read.\<close>

definition side_ok :: "string \<Rightarrow> 't incoming \<Rightarrow> bool" where
  "side_ok stock_name x =
     (case x of (t, stock, side, order, sz) \<Rightarrow>
        stock_name = stock \<longrightarrow> side = ''buy'' \<or> side = ''sell'')"

text \<open>Sortedness by price of the two ledgers of a book and of a snapshot: bids weakly
  descending, asks weakly ascending; and the strict variant, where no two entries of a
  side share a price.\<close>

definition book_sorted :: "book \<Rightarrow> bool" where
  "book_sorted book =
     (sorted_wrt (\<lambda>a b. a \<ge> b) (map fst (get_ledger book ''buy'')) \<and>
      sorted (map fst (get_ledger book ''sell'')))"

definition snapshot_sorted :: "'t snapshot \<Rightarrow> bool" where
  "snapshot_sorted snap =
     (case snap of (t, bids, asks) \<Rightarrow>
        sorted_wrt (\<lambda>a b. a \<ge> b) (map fst (ledger_of bids)) \<and>
        sorted (map fst (ledger_of asks)))"

definition snapshot_strictly_sorted :: "'t snapshot \<Rightarrow> bool" where
  "snapshot_strictly_sorted snap =
     (case snap of (t, bids, asks) \<Rightarrow>
        sorted_wrt (\<lambda>a b. a > b) (map fst (ledger_of bids)) \<and>
        sorted_wrt (\<lambda>a b. a < b) (map fst (ledger_of asks)))"

text \<open>A snapshot is crossed when both ledgers have entries and the best bid price is not
  below the best ask price.\<close>

definition snapshot_crossed :: "'t snapshot \<Rightarrow> bool" where
  "snapshot_crossed snap =
     (case snap of (t, bids, asks) \<Rightarrow>
        ledger_of bids \<noteq> [] \<and> ledger_of asks \<noteq> [] \<and>
        \<not> fst (hd (ledger_of bids)) < fst (hd (ledger_of asks)))"

text \<open>The dictionary after the insertions of a stream alone: each order of the instrument
  is added, aged and sorted into its side, and no uncrossing is ever applied.\<close>

definition stored_book :: "string \<Rightarrow> book \<Rightarrow> 't incoming list \<Rightarrow> book" where
  "stored_book stock_name book orders =
     foldl (\<lambda>b (t, stock, side, order, sz).
              if stock_name = stock then insert_order b side order sz else b) book orders"

section \<open>Basic facts\<close>

lemma age_rest_filter_map:
  "age_rest book = map (\<lambda>(p, s, age). (p, s, age - 1)) (filter (\<lambda>(p, s, age). age > 0) book)"
  by (induction book rule: age_rest.induct) simp_all

lemma age_rest_price_mem:
  "x \<in> set (age_rest xs) \<Longrightarrow> \<exists>y \<in> set xs. fst y = fst x"
  by (induction xs rule: age_rest.induct) (auto split: if_splits)

lemma age_rest_lower_bound:
  "\<forall>y \<in> set xs. c \<le> fst y \<Longrightarrow> \<forall>x \<in> set (age_rest xs). c \<le> fst x"
  using age_rest_price_mem by fastforce

lemma sorted_age_rest: "sorted (map fst xs) \<Longrightarrow> sorted (map fst (age_rest xs))"
proof (induction xs rule: age_rest.induct)
  case 1
  then show ?case by simp
next
  case (2 p s age book)
  then show ?case using age_rest_lower_bound[of book p] by auto
qed

lemma age_rest_sizes_alive:
  "list_all (\<lambda>x. snd (snd x) > 0) xs \<Longrightarrow>
     sum_list (map (\<lambda>x. fst (snd x)) (age_rest xs)) = sum_list (map (\<lambda>x. fst (snd x)) xs)"
  by (induction xs rule: age_rest.induct) auto

text \<open>The resolver faults only on the empty ledger.\<close>

lemma clear_order_no_fault:
  "book \<noteq> [] \<Longrightarrow> \<exists>r. clear_order order sz book op notional = Inr r"
  by (induction order sz book op notional rule: clear_order.induct)
     (auto simp: Let_def)

text \<open>A ledger returned by the resolver is ascending whenever the ledger it was given is.\<close>

lemma clear_order_sorted:
  "sorted (map fst book) \<Longrightarrow> clear_order order sz book op notional = Inr (Some (n, new)) \<Longrightarrow>
     sorted (map fst new)"
proof (induction order sz book op notional rule: clear_order.induct)
  case (1 order sz op notional)
  then show ?case by simp
next
  case (2 order sz top_order top_size age tail op notional)
  from "2.prems"(1) have tl_sorted: "sorted (map fst tail)" and
    le: "\<forall>y \<in> set tail. top_order \<le> fst y" by auto
  show ?case
  proof (cases "top_size - sz > 0")
    case True
    with "2.prems"(2) have "new = (top_order, top_size - sz, age) # age_rest tail"
      by (simp add: Let_def add_book_def split: if_splits)
    then show ?thesis using sorted_age_rest[OF tl_sorted] age_rest_lower_bound[OF le] by auto
  next
    case False
    with "2.prems"(2) have "op order top_order" "length tail > 0"
      and "clear_order order (- (top_size - sz)) tail op
             (notional + of_int (min sz top_size) * top_order) = Inr (Some (n, new))"
      by (simp_all add: Let_def split: if_splits)
    with "2.IH"[OF _ refl refl] False tl_sorted show ?thesis by simp
  qed
qed

text \<open>The loop guard keeps the resolver away from the empty ledger, so the uncrossing
  loop never faults.\<close>

lemma clear_book_total:
  "\<exists>r. clear_book buy sell = Inr r"
proof (induction buy sell rule: clear_book.induct)
  case (1 order sz a buy x sell)
  obtain r where r: "clear_order order sz (x # sell) ge 0 = Inr r"
    using clear_order_no_fault[of "x # sell"] by blast
  show ?case
  proof (cases r)
    case None
    with r show ?thesis by simp
  next
    case (Some nb)
    with r "1.IH"[of r nb] show ?thesis by simp
  qed
qed simp_all

lemma clear_book_Some:
  "\<exists>b' s'. clear_book (Some buy) (Some sell) = Inr (Some b', Some s') \<and> suffix b' buy"
proof (induction buy arbitrary: sell)
  case Nil
  then show ?case by simp
next
  case (Cons b buy)
  obtain order sz a where b: "b = (order, sz, a)" by (cases b)
  show ?case
  proof (cases sell)
    case Nil
    then show ?thesis by (simp add: b)
  next
    case (Cons x sell')
    obtain r where r: "clear_order order sz (x # sell') ge 0 = Inr r"
      using clear_order_no_fault[of "x # sell'"] by blast
    show ?thesis
    proof (cases r)
      case None
      with r Cons b show ?thesis by simp
    next
      case (Some nb)
      from Cons.IH[of "snd nb"] obtain b' s' where
        "clear_book (Some buy) (Some (snd nb)) = Inr (Some b', Some s')" "suffix b' buy"
        by blast
      with r Cons b Some show ?thesis by (simp add: suffix_Cons)
    qed
  qed
qed

lemma clear_book_fixed:
  "clear_book buy sell = Inr r \<Longrightarrow> clear_book (fst r) (snd r) = Inr r"
proof (induction buy sell arbitrary: r rule: clear_book.induct)
  case (1 order sz a buy x sell)
  obtain c where c: "clear_order order sz (x # sell) ge 0 = Inr c"
    using clear_order_no_fault[of "x # sell"] by blast
  show ?case
  proof (cases c)
    case None
    with c "1.prems" show ?thesis by auto
  next
    case (Some nb)
    with c "1.prems" "1.IH"[of c nb r] show ?thesis by simp
  qed
qed auto

section \<open>Insertion and aging (claim C6)\<close>

text \<open>
  Claim C6, as amended. For every ledger and new order, \<^verbatim>\<open>add_book\<close> with the default age
  returns the new order with remaining life 10, followed by exactly those prior entries
  whose remaining life \<^emph>\<open>before\<close> the decrement is positive, each with its life
  reduced by one. An entry of life 1 therefore survives with life 0 and is dropped
  only by the next insertion.
\<close>

theorem add_book_ages_rest:
  "add_book book order sz default_age =
     (order, sz, 10) # map (\<lambda>(p, s, a). (p, s, a - 1)) (filter (\<lambda>(p, s, a). a > 0) book)"
  by (simp add: add_book_def default_age_def age_rest_filter_map)

text \<open>An instance: of the lives 3, 1, 0 and -2 the first two survive, as 2 and 0.\<close>

theorem add_book_ages_rest_witness:
  "add_book [(7, 1, 3), (8, 1, 1), (9, 1, 0), (6, 1, - 2)] 2 2 default_age =
     [(2, 2, 10), (7, 1, 2), (8, 1, 0)]"
  using add_book_ages_rest[of "[(7, 1, 3), (8, 1, 1), (9, 1, 0), (6, 1, - 2)]" 2 2]
  by simp

text \<open>
  Claim C6 as stated fails: an entry of life 1 has decremented life 0, which is not
  positive, yet it is present in the result.
\<close>

theorem add_book_keeps_life_one_counterexample:
  "add_book [(1, 1, 1)] 2 2 default_age = [(2, 2, 10), (1, 1, 0)] \<and>
   add_book [(1, 1, 1)] 2 2 default_age \<noteq>
     (2, 2, 10) # map (\<lambda>(p, s, a). (p, s, a - 1)) (filter (\<lambda>(p, s, a). a - 1 > 0) [(1, 1, 1)])"
  by (simp add: add_book_def default_age_def)

section \<open>The crossing resolver (claims C4 and C5)\<close>

text \<open>
  Claim C4, as amended. For every incoming price and size, \<^verbatim>\<open>clear_order\<close> on an empty
  opposite ledger raises \<^verbatim>\<open>IndexError\<close>; on every non-empty ledger it returns without a
  fault, either the absent result or a pair. (The loop guard of \<^verbatim>\<open>clear_book\<close> and the
  tail test before the recursive call keep the empty ledger away from it.)
\<close>

theorem clear_order_faults_only_on_empty:
  "(book = [] \<longrightarrow> clear_order order sz book op notional = Inl IndexError) \<and>
   (book \<noteq> [] \<longrightarrow> (\<exists>r. clear_order order sz book op notional = Inr r))"
  using clear_order_no_fault by auto

theorem clear_order_faults_only_on_empty_witness:
  "clear_order 100 5 [] ge 0 = Inl IndexError \<and>
   clear_order 100 5 [(110, 4, 10)] ge 0 = Inr None \<and>
   (\<exists>r. clear_order 100 5 [(90, 8, 10)] ge 0 = Inr r)"
  using clear_order_faults_only_on_empty[of "[]" 100 5 ge 0]
    clear_order_faults_only_on_empty[of "[(90, 8, 10)]" 100 5 ge 0]
  by (simp add: ge_def)

text \<open>Claim C4 as stated fails: on the empty ledger the result is a fault, not the absent
  result.\<close>

theorem clear_order_empty_counterexample:
  "clear_order 100 5 [] ge 0 = Inl IndexError \<and> clear_order 100 5 [] ge 0 \<noteq> Inr None"
  by simp

text \<open>
  Claim C5, as amended. When the front entry crosses the incoming order and its size
  exceeds the incoming size, \<^verbatim>\<open>clear_order\<close> returns the front entry reduced by the filled
  amount \<open>min sz top_size\<close>, with its remaining life unchanged, followed by the rest of the
  ledger \<^emph>\<open>aged by one step\<close> (the ledger is rebuilt with \<^verbatim>\<open>add_book\<close>): a tail entry of
  positive life keeps its price and size and loses one unit of life, a tail entry of
  life \<open>\<le> 0\<close> is removed. The resting size removed equals the filled amount when no tail
  entry has run out of life.
\<close>

theorem clear_order_partial_fill:
  assumes "op order top_order" and "top_size - sz > 0"
  shows "\<exists>new. clear_order order sz ((top_order, top_size, age) # tail) op notional =
           Inr (Some (notional + of_int (min sz top_size) * top_order, new)) \<and>
         new = (top_order, top_size - min sz top_size, age) #
                 map (\<lambda>(p, s, a). (p, s, a - 1)) (filter (\<lambda>(p, s, a). a > 0) tail) \<and>
         (list_all (\<lambda>x. snd (snd x) > 0) tail \<longrightarrow>
            sum_list (map (\<lambda>x. fst (snd x)) new) =
            sum_list (map (\<lambda>x. fst (snd x)) ((top_order, top_size, age) # tail)) - min sz top_size)"
proof -
  from assms(2) have m: "min sz top_size = sz" by simp
  have r: "clear_order order sz ((top_order, top_size, age) # tail) op notional =
      Inr (Some (notional + of_int sz * top_order, (top_order, top_size - sz, age) # age_rest tail))"
    using assms m by (simp add: Let_def add_book_def)
  have s: "list_all (\<lambda>x. snd (snd x) > 0) tail \<longrightarrow>
      sum_list (map (\<lambda>x. fst (snd x)) ((top_order, top_size - sz, age) # age_rest tail)) =
      sum_list (map (\<lambda>x. fst (snd x)) ((top_order, top_size, age) # tail)) - sz"
    using age_rest_sizes_alive[of tail] by simp
  show ?thesis
    unfolding m using r s by (simp add: age_rest_filter_map)
qed

theorem clear_order_partial_fill_witness:
  "ge 100 90 \<and> (5::int) - 3 > 0 \<and>
   clear_order 100 3 [(90, 5, 7), (95, 4, 3), (96, 1, 0)] ge 0 =
     Inr (Some (270, [(90, 2, 7), (95, 4, 2)])) \<and>
   list_all (\<lambda>x. snd (snd x) > (0::int)) [(95::rat, 4::int, 3)] \<and>
   clear_order 100 3 [(90, 5, 7), (95, 4, 3)] ge 0 =
     Inr (Some (270, [(90, 2, 7), (95, 4, 2)]))"
  using clear_order_partial_fill[of ge 100 90 5 3 7 "[(95, 4, 3), (96, 1, 0)]" 0]
    clear_order_partial_fill[of ge 100 90 5 3 7 "[(95, 4, 3)]" 0]
  by (simp add: ge_def)

text \<open>
  Claim C5 as stated fails: after a partial fill of the front entry the rest of the
  ledger is not untouched. The entry of life 3 comes back with life 2 and the entry of
  life 0 is gone.
\<close>

theorem clear_order_ages_tail_counterexample:
  "clear_order 100 3 [(90, 5, 7), (95, 4, 3), (96, 1, 0)] ge 0 =
     Inr (Some (270, [(90, 2, 7), (95, 4, 2)])) \<and>
   clear_order 100 3 [(90, 5, 7), (95, 4, 3), (96, 1, 0)] ge 0 \<noteq>
     Inr (Some (270, (90, 2, 7) # [(95, 4, 3), (96, 1, 0)]))"
  by (simp add: ge_def add_book_def)

section \<open>The uncrossing loop (claims C9 and C10)\<close>

text \<open>
  Claim C10. For every pair of ledgers, the bid ledger returned by \<^verbatim>\<open>clear_book\<close> is a
  suffix of the bid ledger it was given: whole entries are dropped from the front, and
  no entry that remains has its size or its remaining life changed.
\<close>

theorem clear_book_bids_suffix:
  "\<exists>b' s'. clear_book (Some buy) sell = Inr (Some b', s') \<and> suffix b' buy"
proof (cases sell)
  case None
  then show ?thesis by (cases buy) auto
next
  case (Some s)
  then show ?thesis using clear_book_Some[of buy s] by auto
qed

text \<open>An instance: a bid of size 5 takes 1 unit from an ask of size 8 and is dropped whole,
  a bid of size 2 then finds no crossing ask and stays as it is.\<close>

theorem clear_book_bids_suffix_witness:
  "clear_book (Some [(100, 1, 10), (80, 2, 4)]) (Some [(90, 8, 10)]) =
     Inr (Some [(80, 2, 4)], Some [(90, 7, 10)]) \<and>
   suffix [(80::rat, 2::int, 4::int)] [(100, 1, 10), (80, 2, 4)]"
  using clear_book_bids_suffix[of "[(100, 1, 10), (80, 2, 4)]" "Some [(90, 8, 10)]"]
  by (simp add: ge_def add_book_def)

text \<open>
  Claim C9. The uncrossing loop is idempotent: for every pair of ledgers, \<^verbatim>\<open>clear_book\<close>
  returns a pair, and applied to that pair it returns it unchanged. In particular, on
  a pair that is already uncrossed (one ledger absent or empty, or the best bid price
  below the best ask price) it returns the pair unchanged.
\<close>

theorem clear_book_idempotent:
  "(\<exists>r. clear_book buy sell = Inr r \<and> clear_book (fst r) (snd r) = Inr r) \<and>
   ((\<forall>b s. buy = Some b \<and> sell = Some s \<and> b \<noteq> [] \<and> s \<noteq> [] \<longrightarrow> fst (hd b) < fst (hd s)) \<longrightarrow>
      clear_book buy sell = Inr (buy, sell))"
proof
  show "\<exists>r. clear_book buy sell = Inr r \<and> clear_book (fst r) (snd r) = Inr r"
    using clear_book_total[of buy sell] clear_book_fixed by blast
next
  show "(\<forall>b s. buy = Some b \<and> sell = Some s \<and> b \<noteq> [] \<and> s \<noteq> [] \<longrightarrow> fst (hd b) < fst (hd s)) \<longrightarrow>
      clear_book buy sell = Inr (buy, sell)"
  proof
    assume u: "\<forall>b s. buy = Some b \<and> sell = Some s \<and> b \<noteq> [] \<and> s \<noteq> [] \<longrightarrow> fst (hd b) < fst (hd s)"
    show "clear_book buy sell = Inr (buy, sell)"
    proof (cases "(buy, sell)" rule: clear_book.cases)
      case (1 order sz a buy' x sell')
      with u have "order < fst x" by simp
      then have "clear_order order sz (x # sell') ge 0 = Inr None"
        by (cases x) (simp add: ge_def)
      with 1 show ?thesis by simp
    qed auto
  qed
qed

theorem clear_book_idempotent_witness:
  "clear_book (Some [(100, 5, 10)]) (Some [(90, 8, 10), (110, 1, 10)]) =
     Inr (Some [], Some [(90, 3, 10), (110, 1, 9)]) \<and>
   clear_book (Some []) (Some [(90, 3, 10), (110, 1, 9)]) =
     Inr (Some [], Some [(90, 3, 10), (110, 1, 9)]) \<and>
   (80::rat) < 90 \<and>
   clear_book (Some [(80, 1, 10)]) (Some [(90, 3, 10)]) =
     Inr (Some [(80, 1, 10)], Some [(90, 3, 10)])"
  using clear_book_idempotent[of "Some [(100, 5, 10)]" "Some [(90, 8, 10), (110, 1, 10)]"]
    clear_book_idempotent[of "Some [(80, 1, 10)]" "Some [(90, 3, 10)]"]
  by (simp add: ge_def add_book_def)

section \<open>Facts about the engine\<close>

text \<open>Storing an order under one of the two sides keeps the dictionary a valid keyword
  argument list, and then the uncrossing call does not fault.\<close>

lemma insert_order_keys:
  "valid_keys book \<Longrightarrow> side = ''buy'' \<or> side = ''sell'' \<Longrightarrow>
   valid_keys (insert_order book side order sz)"
  by (auto simp: valid_keys_def insert_order_def Let_def update_keys list_all_iff)

lemma clear_book_kw_valid:
  "valid_keys book \<Longrightarrow> \<exists>r. clear_book_kw book = Inr r"
  using clear_book_total by (simp add: clear_book_kw_def)

text \<open>Sorting by the negated price is sorting by descending price.\<close>

lemma desc_of_neg_sorted:
  "sorted (map (\<lambda>x. - fst x) xs) = sorted_wrt (\<lambda>a b. a \<ge> b) (map fst (xs :: ledger))"
  by (simp add: sorted_wrt_map)

lemma sorted_price_desc: "sorted_wrt (\<lambda>a b. a \<ge> b) (map fst (sorted_price True new))"
  using sorted_sort_key[of "\<lambda>x. - fst x" new]
  by (simp add: sorted_price_def desc_of_neg_sorted)

lemma sorted_price_asc: "sorted (map fst (sorted_price False new))"
  by (simp add: sorted_price_def)

text \<open>Storing an order changes the ledger of its side only.\<close>

lemma get_ledger_insert_order:
  "get_ledger (insert_order book side order sz) k =
     (if k = side
      then sorted_price (side = ''buy'') (add_book (get_ledger book side) order sz default_age)
      else get_ledger book k)"
  by (simp add: insert_order_def get_ledger_def Let_def update_conv')

lemma get_ledger_of: "get_ledger book k = ledger_of (map_of book k)"
  by (simp add: get_ledger_def ledger_of_def)

text \<open>The uncrossing loop keeps both ledgers sorted: it drops bids from the front, and the
  resolver returns a sorted ask ledger.\<close>

lemma clear_book_sorted:
  "clear_book buy sell = Inr (b', s') \<Longrightarrow>
   sorted_wrt (\<lambda>a b. a \<ge> b) (map fst (ledger_of buy)) \<Longrightarrow> sorted (map fst (ledger_of sell)) \<Longrightarrow>
   sorted_wrt (\<lambda>a b. a \<ge> b) (map fst (ledger_of b')) \<and> sorted (map fst (ledger_of s'))"
proof (induction buy sell arbitrary: b' s' rule: clear_book.induct)
  case (1 order sz a buy x sell)
  obtain c where c: "clear_order order sz (x # sell) ge 0 = Inr c"
    using clear_order_no_fault[of "x # sell"] by blast
  show ?case
  proof (cases c)
    case None
    with c "1.prems" show ?thesis by auto
  next
    case (Some nb)
    obtain n new where nb: "nb = (n, new)" by (cases nb)
    from "1.prems"(3) have "sorted (map fst (x # sell))" by (simp add: ledger_of_def)
    from clear_order_sorted[OF this] c Some nb have new: "sorted (map fst new)" by simp
    from "1.prems"(2) have buy: "sorted_wrt (\<lambda>a b. a \<ge> b) (map fst (ledger_of (Some buy)))"
      by (simp add: ledger_of_def)
    from c Some nb "1.prems"(1) have "clear_book (Some buy) (Some new) = Inr (b', s')" by simp
    with "1.IH"[of c nb b' s'] c Some nb buy new show ?thesis by (simp add: ledger_of_def)
  qed
qed auto

lemma book_sorted_insert_order:
  "book_sorted book \<Longrightarrow> book_sorted (insert_order book side order sz)"
  using sorted_price_desc sorted_price_asc
  by (auto simp: book_sorted_def get_ledger_insert_order)

lemma clear_book_kw_sorted:
  assumes "book_sorted book" and "clear_book_kw book = Inr (bids, asks)"
  shows "snapshot_sorted (t, bids, asks)"
proof -
  from assms(2) have "clear_book (map_of book ''buy'') (map_of book ''sell'') = Inr (bids, asks)"
    by (simp add: clear_book_kw_def split: if_splits)
  from clear_book_sorted[OF this] assms(1) show ?thesis
    by (simp add: book_sorted_def snapshot_sorted_def get_ledger_of)
qed

lemma stored_book_Cons:
  "stored_book stock_name book ((t, stock, side, order, sz) # orders) =
     stored_book stock_name
       (if stock_name = stock then insert_order book side order sz else book) orders"
  by (simp add: stored_book_def)

section \<open>Snapshots per order (claim C7)\<close>

text \<open>
  Claim C7, as amended. When the dictionary has no key other than the two sides and
  every order of the instrument names one of the two sides, \<^verbatim>\<open>order_book\<close> runs through
  the whole stream without a fault and yields exactly one snapshot per incoming order
  of the stream, in order and with that order's timestamp, whether the order is of the
  instrument or of another one. (An order of another instrument leaves the dictionary
  as it is; its snapshot is the uncrossing of the unchanged ledgers.)
\<close>

theorem order_book_snapshot_per_order:
  assumes "valid_keys book" and "list_all (side_ok stock_name) orders"
  shows "\<exists>snaps final. order_book orders book stock_name = (snaps, None, final) \<and>
           map fst snaps = map fst orders"
  using assms
proof (induction orders arbitrary: book)
  case Nil
  then show ?case by simp
next
  case (Cons x orders)
  obtain t stock side order sz where x: "x = (t, stock, side, order, sz)"
    by (cases x)
  define book' where "book' = (if stock_name = stock then insert_order book side order sz else book)"
  have keys: "valid_keys book'"
    using Cons.prems x insert_order_keys[of book side order sz]
    by (auto simp: book'_def side_ok_def)
  then obtain bids asks where kw: "clear_book_kw book' = Inr (bids, asks)"
    using clear_book_kw_valid[of book'] by fastforce
  from Cons.prems(2) have "list_all (side_ok stock_name) orders" by simp
  from Cons.IH[OF keys this] obtain snaps final where
    "order_book orders book' stock_name = (snaps, None, final)" "map fst snaps = map fst orders"
    by blast
  with kw show ?case by (simp add: x book'_def[symmetric])
qed

theorem order_book_snapshot_per_order_witness:
  "valid_keys empty_book \<and>
   list_all (side_ok ''DOGE'') [(1::nat, ''BTC'', ''sell'', 90, 5), (2, ''DOGE'', ''buy'', 100, 3)] \<and>
   order_book [(1::nat, ''BTC'', ''sell'', 90, 5), (2, ''DOGE'', ''buy'', 100, 3)] empty_book ''DOGE'' =
     ([(1, Some [], Some []), (2, Some [(100, 3, 10)], Some [])], None,
      [(''buy'', [(100, 3, 10)]), (''sell'', [])])"
  using order_book_snapshot_per_order[of empty_book "''DOGE''"
      "[(1::nat, ''BTC'', ''sell'', 90, 5), (2, ''DOGE'', ''buy'', 100, 3)]"]
  by (simp add: empty_book_def insert_order_def clear_book_kw_def get_ledger_def add_book_def
      default_age_def sorted_price_def ge_def valid_keys_def side_ok_def)

text \<open>
  Claim C7 as stated fails: a stream of one order of another instrument yields one
  snapshot, while it holds no order of the instrument.
\<close>

theorem order_book_other_instrument_counterexample:
  "fst (order_book [(1::nat, ''BTC'', ''buy'', 100, 5)] empty_book ''DOGE'') =
     [(1, Some [], Some [])] \<and>
   length (fst (order_book [(1::nat, ''BTC'', ''buy'', 100, 5)] empty_book ''DOGE'')) \<noteq>
     length (filter (\<lambda>(t, stock, side, order, sz). stock = ''DOGE'')
        [(1::nat, ''BTC'', ''buy'', 100::rat, 5::int)])"
  by (simp add: empty_book_def clear_book_kw_def valid_keys_def)

section \<open>Sorted snapshots (claim C8)\<close>

text \<open>
  Claim C8, as amended. When the two ledgers of the dictionary start sorted by price
  (bids descending, asks ascending; the empty book is), every snapshot the engine yields
  has its bid ledger sorted descending and its ask ledger sorted ascending by price,
  weakly: two entries of a side may share a price.
\<close>

theorem snapshots_sorted_by_price:
  assumes "book_sorted book"
  shows "list_all snapshot_sorted (fst (order_book orders book stock_name))"
  using assms
proof (induction orders arbitrary: book)
  case Nil
  then show ?case by simp
next
  case (Cons x orders)
  obtain t stock side order sz where x: "x = (t, stock, side, order, sz)"
    by (cases x)
  define book' where "book' = (if stock_name = stock then insert_order book side order sz else book)"
  have sorted': "book_sorted book'"
    using Cons.prems book_sorted_insert_order by (simp add: book'_def)
  show ?case
  proof (cases "clear_book_kw book'")
    case (Inl e)
    then show ?thesis by (simp add: x book'_def[symmetric])
  next
    case (Inr r)
    obtain bids asks where r: "r = (bids, asks)" by (cases r)
    have "snapshot_sorted (t, bids, asks)"
      using Inr r by (intro clear_book_kw_sorted[OF sorted']) simp
    moreover have "list_all snapshot_sorted (fst (order_book orders book' stock_name))"
      using Cons.IH[OF sorted'] .
    ultimately show ?thesis
      using Inr r by (auto simp: x book'_def[symmetric] split: prod.splits)
  qed
qed

theorem snapshots_sorted_by_price_witness:
  "book_sorted empty_book \<and>
   fst (order_book [(1::nat, ''DOGE'', ''buy'', 100, 5), (2, ''DOGE'', ''buy'', 100, 7),
                    (3, ''DOGE'', ''buy'', 120, 1), (4, ''DOGE'', ''sell'', 130, 2),
                    (5, ''DOGE'', ''sell'', 125, 4)] empty_book ''DOGE'') ! 4 =
     (5, Some [(120, 1, 10), (100, 7, 9), (100, 5, 8)], Some [(125, 4, 10), (130, 2, 9)]) \<and>
   snapshot_sorted
     (5::nat, Some [(120, 1, 10), (100, 7, 9), (100, 5, 8)], Some [(125, 4, 10), (130, 2, 9)])"
  using snapshots_sorted_by_price[of empty_book
      "[(1::nat, ''DOGE'', ''buy'', 100, 5), (2, ''DOGE'', ''buy'', 100, 7),
        (3, ''DOGE'', ''buy'', 120, 1), (4, ''DOGE'', ''sell'', 130, 2),
        (5, ''DOGE'', ''sell'', 125, 4)]" "''DOGE''"]
  by (simp add: empty_book_def insert_order_def clear_book_kw_def get_ledger_def add_book_def
      default_age_def sorted_price_def ge_def valid_keys_def book_sorted_def snapshot_sorted_def
      ledger_of_def)

text \<open>
  Claim C8 as stated fails: two bids at the same price are both kept, so the bid ledger
  of the second snapshot is not strictly descending.
\<close>

theorem equal_prices_counterexample:
  "fst (order_book [(1::nat, ''DOGE'', ''buy'', 100, 5), (2, ''DOGE'', ''buy'', 100, 7)]
         empty_book ''DOGE'') ! 1 = (2, Some [(100, 7, 10), (100, 5, 9)], Some []) \<and>
   \<not> snapshot_strictly_sorted
        (fst (order_book [(1::nat, ''DOGE'', ''buy'', 100, 5), (2, ''DOGE'', ''buy'', 100, 7)]
               empty_book ''DOGE'') ! 1)"
  by (simp add: empty_book_def insert_order_def clear_book_kw_def get_ledger_def add_book_def
      default_age_def sorted_price_def ge_def valid_keys_def snapshot_strictly_sorted_def
      ledger_of_def)

section \<open>The stored book is never uncrossed (claim C3)\<close>

text \<open>
  Claim C3. The ledgers computed by \<^verbatim>\<open>clear_book\<close> go into the snapshot only. After a
  run over a stream \<open>pre\<close> that ends without a fault, the dictionary is the one obtained
  by the insertions alone (each ledger aged and sorted, never uncrossed), and every
  later order is processed from that dictionary: the run over \<open>pre @ post\<close> yields the
  snapshots of \<open>pre\<close> followed by those of a run over \<open>post\<close> that starts from the
  insertion-only dictionary. So liquidity shown as matched in a snapshot is still in
  the ledgers the next order meets.
\<close>

theorem order_book_never_writes_back:
  assumes "order_book pre book stock_name = (snaps1, None, mid)"
  shows "mid = stored_book stock_name book pre \<and>
         order_book (pre @ post) book stock_name =
           (case order_book post (stored_book stock_name book pre) stock_name of
              (snaps2, err, final) \<Rightarrow> (snaps1 @ snaps2, err, final))"
  using assms
proof (induction pre arbitrary: book snaps1)
  case Nil
  then show ?case by (simp add: stored_book_def split: prod.splits)
next
  case (Cons x pre)
  obtain t stock side order sz where x: "x = (t, stock, side, order, sz)"
    by (cases x)
  define book' where "book' = (if stock_name = stock then insert_order book side order sz else book)"
  from Cons.prems obtain bids asks where kw: "clear_book_kw book' = Inr (bids, asks)"
    by (cases "clear_book_kw book'") (auto simp: x book'_def[symmetric])
  obtain snaps' err' final' where rest: "order_book pre book' stock_name = (snaps', err', final')"
    by (cases "order_book pre book' stock_name")
  with Cons.prems kw have e: "err' = None" "final' = mid" "snaps1 = (t, bids, asks) # snaps'"
    by (simp_all add: x book'_def[symmetric])
  from Cons.IH[of book' snaps'] rest e have
    ih: "mid = stored_book stock_name book' pre"
      "order_book (pre @ post) book' stock_name =
         (case order_book post (stored_book stock_name book' pre) stock_name of
            (snaps2, err, final) \<Rightarrow> (snaps' @ snaps2, err, final))"
    by simp_all
  have st: "stored_book stock_name book (x # pre) = stored_book stock_name book' pre"
    by (simp add: x stored_book_Cons book'_def)
  show ?case
    using ih kw e unfolding st
    by (simp add: x book'_def[symmetric] split: prod.splits)
qed

text \<open>An instance: the second snapshot shows the ask reduced to size 2, the stored ask
  keeps size 5, and the third order is matched against the size 5 again.\<close>

theorem order_book_never_writes_back_witness:
  "order_book [(1::nat, ''DOGE'', ''sell'', 90, 5), (2, ''DOGE'', ''buy'', 100, 3)] empty_book ''DOGE'' =
     ([(1, Some [], Some [(90, 5, 10)]), (2, Some [], Some [(90, 2, 10)])], None,
      [(''buy'', [(100, 3, 10)]), (''sell'', [(90, 5, 10)])]) \<and>
   stored_book ''DOGE'' empty_book [(1::nat, ''DOGE'', ''sell'', 90, 5), (2, ''DOGE'', ''buy'', 100, 3)] =
     [(''buy'', [(100, 3, 10)]), (''sell'', [(90, 5, 10)])] \<and>
   order_book ([(1::nat, ''DOGE'', ''sell'', 90, 5), (2, ''DOGE'', ''buy'', 100, 3)] @
               [(3, ''DOGE'', ''buy'', 80, 1)]) empty_book ''DOGE'' =
     ([(1, Some [], Some [(90, 5, 10)]), (2, Some [], Some [(90, 2, 10)]),
       (3, Some [(80, 1, 10)], Some [(90, 2, 10)])], None,
      [(''buy'', [(100, 3, 9), (80, 1, 10)]), (''sell'', [(90, 5, 10)])])"
proof -
  have run: "order_book [(1::nat, ''DOGE'', ''sell'', 90, 5), (2, ''DOGE'', ''buy'', 100, 3)]
      empty_book ''DOGE'' =
     ([(1, Some [], Some [(90, 5, 10)]), (2, Some [], Some [(90, 2, 10)])], None,
      [(''buy'', [(100, 3, 10)]), (''sell'', [(90, 5, 10)])])"
    by (simp add: empty_book_def insert_order_def clear_book_kw_def get_ledger_def add_book_def
        default_age_def sorted_price_def ge_def valid_keys_def)
  have post: "order_book [(3::nat, ''DOGE'', ''buy'', 80, 1)]
      [(''buy'', [(100, 3, 10)]), (''sell'', [(90, 5, 10)])] ''DOGE'' =
     ([(3, Some [(80, 1, 10)], Some [(90, 2, 10)])], None,
      [(''buy'', [(100, 3, 9), (80, 1, 10)]), (''sell'', [(90, 5, 10)])])"
    by (simp add: insert_order_def clear_book_kw_def get_ledger_def add_book_def
        default_age_def sorted_price_def ge_def valid_keys_def)
  from order_book_never_writes_back[OF run, of "[(3, ''DOGE'', ''buy'', 80, 1)]"] run post
  show ?thesis by simp
qed

section \<open>A crossed snapshot (claim C1)\<close>

text \<open>
  Claim C1 says that no snapshot with two non-empty ledgers has its best bid at or above
  its best ask. The engine yields such a snapshot: from the empty book, a bid of 5 at
  100 followed by an ask of 3 at 90. The resolver consumes the whole ask ledger, finds
  no tail to continue with and returns the absent result, so the loop stops with both
  ledgers as they were.
\<close>

theorem crossed_snapshot_emitted:
  "fst (order_book [(1::nat, ''DOGE'', ''buy'', 100, 5), (2, ''DOGE'', ''sell'', 90, 3)]
         empty_book ''DOGE'') ! 1 = (2, Some [(100, 5, 10)], Some [(90, 3, 10)]) \<and>
   snapshot_crossed (2::nat, Some [(100, 5, 10)], Some [(90, 3, 10)])"
  by (simp add: empty_book_def insert_order_def clear_book_kw_def get_ledger_def add_book_def
      default_age_def sorted_price_def ge_def valid_keys_def snapshot_crossed_def ledger_of_def)

section \<open>The bid-then-ask scenario (claim C2)\<close>

text \<open>
  Claim C2, as amended. From the empty book, a buy order (price 100, size 5) yields a
  snapshot with bids \<open>[(100, 5, 10)]\<close> and no asks. A sell order (price 90, size 3) then
  yields a second snapshot in which the bid is neither reduced nor aged: the bid ledger
  shown is a suffix of \<open>[(100, 5, 10)]\<close> (uncrossing only drops whole bids, and a sell
  order ages the sell ledger only), and the dictionary keeps the bid as
  \<open>(100, 5, 10)\<close> and the ask as \<open>(90, 3, 10)\<close>.
\<close>

theorem scenario_bid_then_ask:
  "\<exists>bids asks.
     order_book [(1::nat, ''DOGE'', ''buy'', 100, 5), (2, ''DOGE'', ''sell'', 90, 3)]
       empty_book ''DOGE'' =
       ([(1, Some [(100, 5, 10)], Some []), (2, Some bids, asks)], None,
        [(''buy'', [(100, 5, 10)]), (''sell'', [(90, 3, 10)])]) \<and>
     suffix bids [(100, 5, 10)]"
  by (simp add: empty_book_def insert_order_def clear_book_kw_def get_ledger_def add_book_def
      default_age_def sorted_price_def ge_def valid_keys_def)

text \<open>
  Claim C2 as stated fails: the second snapshot is not the one with bids
  \<open>[(100, 2, 9)]\<close> and no asks.
\<close>

theorem scenario_second_snapshot_counterexample:
  "fst (order_book [(1::nat, ''DOGE'', ''buy'', 100, 5), (2, ''DOGE'', ''sell'', 90, 3)]
         empty_book ''DOGE'') =
     [(1, Some [(100, 5, 10)], Some []), (2, Some [(100, 5, 10)], Some [(90, 3, 10)])] \<and>
   fst (order_book [(1::nat, ''DOGE'', ''buy'', 100, 5), (2, ''DOGE'', ''sell'', 90, 3)]
         empty_book ''DOGE'') \<noteq>
     [(1, Some [(100, 5, 10)], Some []), (2, Some [(100, 2, 9)], Some [])]"
  by (simp add: empty_book_def insert_order_def clear_book_kw_def get_ledger_def add_book_def
      default_age_def sorted_price_def ge_def valid_keys_def)

end
